theory Spec2Isabelle
  imports Complex_Main "HOL-Library.Sublist"
begin

text \<open>
  A model of \<open>subreddit_idea_filter.py\<close>: the pipeline that fetches the new posts of some
  subreddits, asks a language model which of them match a criterion, renders the matches
  as an HTML report and mails it.  Whatever a function reads from outside (environment,
  clock, network) is an argument of its model; whatever it does to the outside (calls to
  the model, mail operations, log lines) is part of the result.  Line numbers refer to the
  source file.
\<close>

section \<open>Python values used by the pipeline\<close>

text \<open>
  Python \<open>str\<close> values are modelled as \<^typ>\<open>string\<close>, with the behaviour of the
  \<open>str\<close> methods on ASCII text: \<open>str.strip()\<close> removes the ASCII characters for
  which \<open>str.isspace\<close> holds, \<open>str.upper()\<close> maps \<open>a\<close>..\<open>z\<close> to \<open>A\<close>..\<open>Z\<close>.
  Characters outside ASCII are left alone by both.
  Python floats (\<open>time.time()\<close>, \<open>created_utc\<close>) are modelled as exact rationals.
\<close>

text \<open>
  The exceptions that occur.  \<open>RequestException\<close> stands for \<open>requests.exceptions.RequestException\<close>
  and its subclasses, \<open>ApiError\<close> for whatever the client of the language model raises.
\<close>

datatype py_exc =
    ValueError | KeyError | TypeError | IndexError | AttributeError
  | RequestException | ApiError

definition newline :: char where
  "newline = CHR 0x0A"

definition whitespace :: "char list" where
  "whitespace = [CHR 0x09, CHR 0x0A, CHR 0x0B, CHR 0x0C, CHR 0x0D,
                 CHR 0x1C, CHR 0x1D, CHR 0x1E, CHR 0x1F, CHR 0x20]"

definition isspace :: "char \<Rightarrow> bool" where
  "isspace c = (c \<in> set whitespace)"

definition lstrip :: "string \<Rightarrow> string" where
  "lstrip s = dropWhile isspace s"

definition rstrip :: "string \<Rightarrow> string" where
  "rstrip s = rev (dropWhile isspace (rev s))"

definition strip :: "string \<Rightarrow> string" where
  "strip s = rstrip (lstrip s)"

definition upper_chr :: "char \<Rightarrow> char" where
  "upper_chr c =
     (case map_of (zip ''abcdefghijklmnopqrstuvwxyz'' ''ABCDEFGHIJKLMNOPQRSTUVWXYZ'') c of
        Some u \<Rightarrow> u
      | None \<Rightarrow> c)"

definition upper :: "string \<Rightarrow> string" where
  "upper s = map upper_chr s"

text \<open>\<open>s.split(sep, maxsplit)\<close> for a separator of one character.\<close>

fun split_max :: "char \<Rightarrow> nat \<Rightarrow> string \<Rightarrow> string list" where
  "split_max sep 0 s = [s]"
| "split_max sep (Suc n) s =
     (case dropWhile (\<lambda>c. c \<noteq> sep) s of
        [] \<Rightarrow> [s]
      | _ # rest \<Rightarrow> takeWhile (\<lambda>c. c \<noteq> sep) s # split_max sep n rest)"

text \<open>
  Decimal rendering of an integer, as \<open>str(n)\<close> and \<open>f"{n}"\<close> give it; \<open>digit_chr\<close> is
  applied to numbers below ten only.
\<close>

definition digit_chr :: "nat \<Rightarrow> char" where
  "digit_chr d = ''0123456789'' ! d"

fun str_nat :: "nat \<Rightarrow> string" where
  "str_nat n = (if n < 10 then [digit_chr n] else str_nat (n div 10) @ [digit_chr (n mod 10)])"

declare str_nat.simps [simp del]

definition str_int :: "int \<Rightarrow> string" where
  "str_int i = (if i < 0 then CHR ''-'' # str_nat (nat (- i)) else str_nat (nat i))"

text \<open>\<open>int(x)\<close> on a float truncates towards zero.\<close>

definition int_of_float :: "rat \<Rightarrow> int" where
  "int_of_float x = (if 0 \<le> x then \<lfloor>x\<rfloor> else \<lceil>x\<rceil>)"

text \<open>Truth value of an optional string: \<open>None\<close> and \<open>""\<close> are false.\<close>

fun truthy :: "string option \<Rightarrow> bool" where
  "truthy None = False"
| "truthy (Some s) = (s \<noteq> [])"

text \<open>The process environment, read through \<open>os.getenv\<close>.\<close>

type_synonym environ = "string \<Rightarrow> string option"

definition getenv :: "environ \<Rightarrow> string \<Rightarrow> string option" where
  "getenv env name = env name"

definition getenv_default :: "environ \<Rightarrow> string \<Rightarrow> string \<Rightarrow> string" where
  "getenv_default env name dflt = (case env name of None \<Rightarrow> dflt | Some v \<Rightarrow> v)"

text \<open>
  \<open>int(s)\<close> for a \<open>str\<close>: blanks around the number are ignored, a sign may come first,
  and the digits may be grouped by single underscores.  \<open>None\<close> stands for the
  \<open>ValueError\<close> that \<open>int\<close> raises; CPython 3.11 and later raise it as well for more than
  4300 digits.
\<close>

definition int_space :: "char \<Rightarrow> bool" where
  "int_space c = (c \<in> set [CHR 0x09, CHR 0x0A, CHR 0x0B, CHR 0x0C, CHR 0x0D, CHR 0x20])"

definition is_digit :: "char \<Rightarrow> bool" where
  "is_digit c = (c \<in> set ''0123456789'')"

definition digit_val :: "char \<Rightarrow> nat" where
  "digit_val c = (case map_of (zip ''0123456789'' [0, 1, 2, 3, 4, 5, 6, 7, 8, 9]) c of
                    Some d \<Rightarrow> d | None \<Rightarrow> 0)"

fun digit_groups :: "bool \<Rightarrow> string \<Rightarrow> bool" where
  "digit_groups after_digit [] = after_digit"
| "digit_groups after_digit (c # cs) =
     (if is_digit c then digit_groups True cs
      else if c = CHR ''_'' \<and> after_digit then digit_groups False cs
      else False)"

definition max_str_digits :: nat where
  "max_str_digits = 4300"

definition py_int :: "string \<Rightarrow> int option" where
  "py_int s =
     (let t = rev (dropWhile int_space (rev (dropWhile int_space s)));
          negative = (t \<noteq> [] \<and> hd t = CHR ''-'');
          body = (if t \<noteq> [] \<and> (hd t = CHR ''-'' \<or> hd t = CHR ''+'') then tl t else t);
          digits = filter is_digit body
      in if digit_groups False body \<and> length digits \<le> max_str_digits
         then Some (let n = int (foldl (\<lambda>acc c. 10 * acc + digit_val c) 0 digits)
                    in if negative then - n else n)
         else None)"

section \<open>Post\<close>

record post =
  title :: string
  author :: string
  score :: int
  url :: string
  created_utc :: rat
  num_comments :: int
  selftext :: "string option"
  subreddit :: string
  permalink :: string

text \<open>\<open>Post.get_age_str\<close>; the reading of \<open>time.time()\<close> is the argument \<open>now\<close>.\<close>

definition get_age_str :: "rat \<Rightarrow> post \<Rightarrow> string" where
  "get_age_str now p =
     (let age_seconds = now - created_utc p in
      if age_seconds < 60 then str_int (int_of_float age_seconds) @ ''s''
      else if age_seconds < 3600 then str_int (int_of_float (age_seconds / 60)) @ ''m''
      else if age_seconds < 86400 then str_int (int_of_float (age_seconds / 3600)) @ ''h''
      else str_int (int_of_float (age_seconds / 86400)) @ ''d'')"

definition reddit_origin :: string where
  "reddit_origin = ''https://www.reddit.com''"

definition get_full_url :: "post \<Rightarrow> string" where
  "get_full_url p = reddit_origin @ permalink p"

section \<open>Post source: \<open>fetch_new_posts\<close>\<close>

subsection \<open>The authenticated API\<close>

text \<open>
  The attributes of a PRAW submission that line 116 reads; \<open>s_author\<close> is \<open>None\<close> for a
  deleted account, and \<open>str(None)\<close> is \<open>"None"\<close>.
\<close>

record submission =
  s_title :: string
  s_author :: "string option"
  s_score :: int
  s_url :: string
  s_created_utc :: rat
  s_num_comments :: int
  s_selftext :: string
  s_display_name :: string
  s_permalink :: string

definition post_of_submission :: "submission \<Rightarrow> post" where
  "post_of_submission s =
     \<lparr>title = s_title s,
      author = (case s_author s of None \<Rightarrow> ''None'' | Some name \<Rightarrow> name),
      score = s_score s,
      url = s_url s,
      created_utc = s_created_utc s,
      num_comments = s_num_comments s,
      selftext = Some (s_selftext s),
      subreddit = s_display_name s,
      permalink = s_permalink s\<rparr>"

text \<open>
  What lines 108 to 127 do with the authenticated API: the session is opened for a request,
  the submissions in \<open>yielded\<close> are turned into posts one after the other, and then the
  iteration either ends (\<open>raised = False\<close>) or an exception is raised, by the client, the
  listing or the reading of an attribute (\<open>raised = True\<close>).
\<close>

record praw_request =
  praw_client_id :: string
  praw_client_secret :: string
  praw_user_agent :: string
  praw_subreddit :: string
  praw_limit :: int

record praw_run =
  yielded :: "submission list"
  raised :: bool

subsection \<open>The anonymous endpoint\<close>

text \<open>The value that \<open>response.json()\<close> returns.  A dict is the list of its items.\<close>

datatype json =
    JNull
  | JBool bool
  | JInt int
  | JFloat rat
  | JStr string
  | JArr "json list"
  | JObj "(string \<times> json) list"

text \<open>
  The request of line 159 and its outcome: \<open>requests.get\<close> raises (no connection, timeout),
  or there is a response with a status code and a body, \<open>None\<close> when the body is not JSON.
  \<open>raise_for_status\<close> raises for the codes 400 to 599.  The wait of line 141 takes time
  only and is left out.
\<close>

record http_request =
  request_url :: string
  request_user_agent :: string
  request_limit :: int
  request_proxy :: "string option"

datatype http_result =
    RequestFails
  | Response nat "json option"

text \<open>
  How the evaluation of an expression ends early.  The dataclass does not check the types
  of its fields: a listing that gives a field a JSON value of another type than the
  annotation builds a \<open>Post\<close> that the record \<^typ>\<open>post\<close> cannot hold.  The model keeps
  such listings apart as \<open>IllTyped\<close>; every other early end is an exception.
\<close>

datatype fault = Raised py_exc | IllTyped

definition and_then :: "fault + 'a \<Rightarrow> ('a \<Rightarrow> fault + 'b) \<Rightarrow> fault + 'b" where
  "and_then r f = (case r of Inl e \<Rightarrow> Inl e | Inr v \<Rightarrow> f v)"

text \<open>\<open>v[key]\<close>, \<open>v.get(key, default)\<close> and \<open>for item in v\<close> on a decoded value.\<close>

fun subscript :: "json \<Rightarrow> string \<Rightarrow> fault + json" where
  "subscript (JObj members) key =
     (case map_of members key of None \<Rightarrow> Inl (Raised KeyError) | Some v \<Rightarrow> Inr v)"
| "subscript v key = Inl (Raised TypeError)"

fun dict_get :: "json \<Rightarrow> string \<Rightarrow> json \<Rightarrow> fault + json" where
  "dict_get (JObj members) key dflt =
     (case map_of members key of None \<Rightarrow> Inr dflt | Some v \<Rightarrow> Inr v)"
| "dict_get v key dflt = Inl (Raised AttributeError)"

fun iterate :: "json \<Rightarrow> fault + json list" where
  "iterate (JArr items) = Inr items"
| "iterate (JObj members) = Inr (map (\<lambda>(key, v). JStr key) members)"
| "iterate (JStr s) = Inr (map (\<lambda>c. JStr [c]) s)"
| "iterate v = Inl (Raised TypeError)"

text \<open>The fields at their annotated types; \<open>created_utc\<close> may be an integer literal.\<close>

fun as_str :: "json \<Rightarrow> fault + string" where
  "as_str (JStr s) = Inr s"
| "as_str v = Inl IllTyped"

fun as_int :: "json \<Rightarrow> fault + int" where
  "as_int (JInt i) = Inr i"
| "as_int v = Inl IllTyped"

fun as_float :: "json \<Rightarrow> fault + rat" where
  "as_float (JFloat x) = Inr x"
| "as_float (JInt i) = Inr (of_int i)"
| "as_float v = Inl IllTyped"

fun as_optional_str :: "json \<Rightarrow> fault + string option" where
  "as_optional_str (JStr s) = Inr (Some s)"
| "as_optional_str JNull = Inr None"
| "as_optional_str v = Inl IllTyped"

text \<open>Lines 164 to 175: the lookups in the order of the keyword arguments.\<close>

definition post_of_item :: "json \<Rightarrow> fault + post" where
  "post_of_item item =
     and_then (subscript item ''data'') (\<lambda>post_data.
     and_then (subscript post_data ''title'') (\<lambda>v_title.
     and_then (subscript post_data ''author'') (\<lambda>v_author.
     and_then (subscript post_data ''score'') (\<lambda>v_score.
     and_then (subscript post_data ''url'') (\<lambda>v_url.
     and_then (subscript post_data ''created_utc'') (\<lambda>v_created_utc.
     and_then (subscript post_data ''num_comments'') (\<lambda>v_num_comments.
     and_then (dict_get post_data ''selftext'' (JStr '''')) (\<lambda>v_selftext.
     and_then (subscript post_data ''subreddit'') (\<lambda>v_subreddit.
     and_then (subscript post_data ''permalink'') (\<lambda>v_permalink.
     and_then (as_str v_title) (\<lambda>t.
     and_then (as_str v_author) (\<lambda>a.
     and_then (as_int v_score) (\<lambda>sc.
     and_then (as_str v_url) (\<lambda>u.
     and_then (as_float v_created_utc) (\<lambda>c.
     and_then (as_int v_num_comments) (\<lambda>n.
     and_then (as_optional_str v_selftext) (\<lambda>st.
     and_then (as_str v_subreddit) (\<lambda>sr.
     and_then (as_str v_permalink) (\<lambda>pl.
       Inr \<lparr>title = t, author = a, score = sc, url = u, created_utc = c,
            num_comments = n, selftext = st, subreddit = sr,
            permalink = pl\<rparr>)))))))))))))))))))"

text \<open>
  The loop of line 163.  The result is the exception that ended the loop, if any, and the
  list \<open>posts\<close> as the loop left it.
\<close>

fun append_items :: "post list \<Rightarrow> json list \<Rightarrow> fault option \<times> post list" where
  "append_items posts [] = (None, posts)"
| "append_items posts (item # items) =
     (case post_of_item item of
        Inl e \<Rightarrow> (Some e, posts)
      | Inr p \<Rightarrow> append_items (posts @ [p]) items)"

definition anonymous_request :: "environ \<Rightarrow> string \<Rightarrow> int \<Rightarrow> string \<Rightarrow> http_request" where
  "anonymous_request env subreddit_name limit user_agent =
     (let url = ''https://www.reddit.com/r/'' @ subreddit_name @ ''/new.json'';
          proxy = getenv env ''HTTP_PROXY''
      in \<lparr>request_url = url, request_user_agent = user_agent, request_limit = limit,
          request_proxy = (if truthy proxy then proxy else None)\<rparr>)"

text \<open>
  The body of the \<open>try\<close> of line 139.  A failed request, a status from 400 to 599 and a
  body that is not JSON raise subclasses of \<open>RequestException\<close> (for the body:
  \<open>requests.exceptions.JSONDecodeError\<close>, as of requests 2.27).
\<close>

definition anonymous_try ::
  "environ \<Rightarrow> (http_request \<Rightarrow> http_result) \<Rightarrow> string \<Rightarrow> int \<Rightarrow> string \<Rightarrow> post list \<Rightarrow>
     fault option \<times> post list" where
  "anonymous_try env http_get subreddit_name limit user_agent posts =
     (case http_get (anonymous_request env subreddit_name limit user_agent) of
           RequestFails \<Rightarrow> (Some (Raised RequestException), posts)
         | Response status body \<Rightarrow>
             if 400 \<le> status \<and> status < 600 then (Some (Raised RequestException), posts)
             else case body of
                    None \<Rightarrow> (Some (Raised RequestException), posts)
                  | Some data \<Rightarrow>
                      (case and_then (and_then (subscript data ''data'')
                                        (\<lambda>d. subscript d ''children'')) iterate of
                         Inl e \<Rightarrow> (Some e, posts)
                       | Inr items \<Rightarrow> append_items posts items))"

text \<open>
  Lines 139 to 183: the clause of line 180 catches \<open>RequestException\<close> only; any other
  exception leaves \<open>fetch_new_posts\<close>.
\<close>

definition anonymous_path ::
  "environ \<Rightarrow> (http_request \<Rightarrow> http_result) \<Rightarrow> string \<Rightarrow> int \<Rightarrow> string \<Rightarrow> post list \<Rightarrow>
     fault + post list" where
  "anonymous_path env http_get subreddit_name limit user_agent posts =
     (case anonymous_try env http_get subreddit_name limit user_agent posts of
        (None, posts') \<Rightarrow> Inr posts'
      | (Some (Raised RequestException), posts') \<Rightarrow> Inr posts'
      | (Some e, posts') \<Rightarrow> Inl e)"

definition user_agent_of :: "environ \<Rightarrow> string" where
  "user_agent_of env =
     getenv_default env ''REDDIT_USER_AGENT'' ''python:idea-filter:v1.0 (by /u/yourusername)''"

definition authenticated_request :: "environ \<Rightarrow> string \<Rightarrow> int \<Rightarrow> praw_request" where
  "authenticated_request env subreddit_name limit =
     \<lparr>praw_client_id = the (getenv env ''REDDIT_CLIENT_ID''),
      praw_client_secret = the (getenv env ''REDDIT_CLIENT_SECRET''),
      praw_user_agent = user_agent_of env,
      praw_subreddit = subreddit_name, praw_limit = limit\<rparr>"

text \<open>
  Lines 96 to 183.  \<open>Inr\<close> is the returned list; \<open>Inl\<close> an exception that reaches the caller.
  The clause of line 132 catches every exception of the authenticated path; the posts
  appended before it stay in \<open>posts\<close>.
\<close>

definition fetch_new_posts ::
  "environ \<Rightarrow> (praw_request \<Rightarrow> praw_run) \<Rightarrow> (http_request \<Rightarrow> http_result) \<Rightarrow> string \<Rightarrow> int \<Rightarrow>
     fault + post list" where
  "fetch_new_posts env praw http_get subreddit_name limit =
     (let posts = [];
          client_id = getenv env ''REDDIT_CLIENT_ID'';
          client_secret = getenv env ''REDDIT_CLIENT_SECRET'';
          user_agent = user_agent_of env
      in if truthy client_id \<and> truthy client_secret
         then
           let run = praw (authenticated_request env subreddit_name limit);
               posts = posts @ map post_of_submission (yielded run)
           in if raised run
              then anonymous_path env http_get subreddit_name limit user_agent posts
              else Inr posts
         else anonymous_path env http_get subreddit_name limit user_agent posts)"

section \<open>Classifier: \<open>filter_posts_with_gemini\<close>\<close>

definition post_content_1 :: string where
  \<open>post_content_1 =
     ''\<newline>'' @
     ''        Title: ''\<close>

definition post_content_2 :: string where
  \<open>post_content_2 =
     ''\<newline>'' @
     ''        Subreddit: r/''\<close>

definition post_content_3 :: string where
  \<open>post_content_3 =
     ''\<newline>'' @
     ''        Content: ''\<close>

definition post_content_4 :: string where
  \<open>post_content_4 =
     ''\<newline>'' @
     ''        ''\<close>

definition post_content :: "post \<Rightarrow> string" where
  "post_content p =
     post_content_1 @ title p @ post_content_2 @ subreddit p @ post_content_3 @
     (if truthy (selftext p) then the (selftext p) else ''[No content]'') @ post_content_4"

definition prompt_1 :: string where
  \<open>prompt_1 =
     ''\<newline>'' @
     ''        ''\<close>

definition prompt_2 :: string where
  \<open>prompt_2 =
     ''\<newline>'' @
     ''        \<newline>'' @
     ''        Post details:\<newline>'' @
     ''        ''\<close>

definition prompt_3 :: string where
  \<open>prompt_3 =
     ''\<newline>'' @
     ''        \<newline>'' @
     ''        First, answer with just YES or NO. \<newline>'' @
     ''        Then, if YES, provide a one-sentence explanation of why this post matches the criteria.\<newline>'' @
     ''        Format your answer exactly like this example:\<newline>'' @
     ''        YES\<newline>'' @
     ''        This post describes a specific pain point that could be addressed with a SaaS solution.\<newline>'' @
     ''        \<newline>'' @
     ''        Or if it doesn't match:\<newline>'' @
     ''        NO\<newline>'' @
     ''        ''\<close>

definition prompt :: "string \<Rightarrow> post \<Rightarrow> string" where
  "prompt filter_criteria p =
     prompt_1 @ filter_criteria @ prompt_2 @ post_content p @ prompt_3"

text \<open>
  The remote model. A call either raises, or returns a completion whose
  \<open>choices[i].message.content\<close> are listed (\<open>None\<close> for a missing content).  The model may
  answer the same prompt differently each time, so it is a function of the number of
  calls made before and of the prompt.
\<close>

datatype chat_result = CallRaises | Completion "string option list"

type_synonym chat_model = "nat \<Rightarrow> string \<Rightarrow> chat_result"

text \<open>Lines 245 to 249: the decision and the reason read from the stripped content.\<close>

definition parse_response :: "string \<Rightarrow> string option" where
  "parse_response response =
     (let lines = split_max newline 1 response;
          decision = upper (strip (lines ! 0))
      in if decision = ''YES'' \<and> length lines > 1
         then Some (strip (lines ! 1))
         else None)"

text \<open>
  Lines 235 to 253, the body of the \<open>try\<close> after the call: \<open>Inl\<close> is the exception that
  reaches the \<open>except\<close> clause, \<open>Inr (Some reason)\<close> an acceptance, \<open>Inr None\<close> a rejection.
\<close>

fun handle_completion :: "chat_result \<Rightarrow> py_exc + string option" where
  "handle_completion CallRaises = Inl ApiError"
| "handle_completion (Completion []) = Inl IndexError"
| "handle_completion (Completion (None # _)) = Inl AttributeError"
| "handle_completion (Completion (Some content # _)) = Inr (parse_response (strip content))"

datatype log_event =
    MissingKey
  | UsingKey string string
  | Accepted string
  | Rejected string
  | ErrorFiltering string py_exc

record filter_state =
  filtered_posts :: "(post \<times> string) list"
  calls :: "string list"
  logged :: "log_event list"

text \<open>One iteration of the loop of line 205.\<close>

definition filter_step ::
  "chat_model \<Rightarrow> string \<Rightarrow> string \<Rightarrow> post list \<Rightarrow> filter_state \<Rightarrow> post \<Rightarrow> filter_state" where
  "filter_step model openrouter_key filter_criteria posts st p =
     (let pr = prompt filter_criteria p;
          st1 = (if p = hd posts
                 then st\<lparr>logged := logged st @
                        [UsingKey (take 5 openrouter_key)
                                  (drop (length openrouter_key - 4) openrouter_key)]\<rparr>
                 else st);
          completion = model (length (calls st1)) pr;
          st2 = st1\<lparr>calls := calls st1 @ [pr]\<rparr>
      in case handle_completion completion of
           Inl e \<Rightarrow> st2\<lparr>logged := logged st2 @ [ErrorFiltering (title p) e]\<rparr>
         | Inr (Some reason) \<Rightarrow>
             st2\<lparr>filtered_posts := filtered_posts st2 @ [(p, reason)],
                 logged := logged st2 @ [Accepted (title p)]\<rparr>
         | Inr None \<Rightarrow> st2\<lparr>logged := logged st2 @ [Rejected (title p)]\<rparr>)"

fun filter_loop ::
  "chat_model \<Rightarrow> string \<Rightarrow> string \<Rightarrow> post list \<Rightarrow> filter_state \<Rightarrow> post list \<Rightarrow> filter_state" where
  "filter_loop model key crit posts st [] = st"
| "filter_loop model key crit posts st (p # ps) =
     filter_loop model key crit posts (filter_step model key crit posts st p) ps"

definition filter_posts_with_gemini ::
  "environ \<Rightarrow> chat_model \<Rightarrow> post list \<Rightarrow> string \<Rightarrow> filter_state" where
  "filter_posts_with_gemini env model posts filter_criteria =
     (let st0 = \<lparr>filtered_posts = [], calls = [], logged = []\<rparr> in
      case getenv env ''OPENROUTER_KEY'' of
        None \<Rightarrow> st0\<lparr>logged := [MissingKey]\<rparr>
      | Some openrouter_key \<Rightarrow>
          if openrouter_key = [] then st0\<lparr>logged := [MissingKey]\<rparr>
          else filter_loop model openrouter_key filter_criteria posts st0 posts)"

section \<open>Report renderer: \<open>build_html_report\<close>\<close>

text \<open>
  The clock as the renderer reads it: \<open>datetime.now().strftime("%Y-%m-%d %H:%M:%S")\<close>,
  read once, and \<open>time.time()\<close>, read by \<open>get_age_str\<close> once for each block; \<open>time_time k\<close>
  is the reading for the \<open>k\<close>-th block.
\<close>

record clock =
  strftime_now :: string
  time_time :: "nat \<Rightarrow> rat"

text \<open>The literal pieces of the f-string of line 265.\<close>

definition html_head_1 :: string where
  \<open>html_head_1 =
     ''\<newline>'' @
     ''    <!DOCTYPE html>\<newline>'' @
     ''    <html>\<newline>'' @
     ''    <head>\<newline>'' @
     ''        <meta charset="UTF-8">\<newline>'' @
     ''        <meta name="viewport" content="width=device-width, initial-scale=1.0">\<newline>'' @
     ''        <title>Reddit Idea Filter Report</title>\<newline>'' @
     ''        <style>\<newline>'' @
     ''            body {\<newline>'' @
     ''                font-family: Arial, sans-serif;\<newline>'' @
     ''                line-height: 1.6;\<newline>'' @
     ''                max-width: 800px;\<newline>'' @
     ''                margin: 0 auto;\<newline>'' @
     ''                padding: 20px;\<newline>'' @
     ''                color: #333;\<newline>'' @
     ''            }\<newline>'' @
     ''            h1 {\<newline>'' @
     ''                color: #ff4500;\<newline>'' @
     ''                border-bottom: 2px solid #ff4500;\<newline>'' @
     ''                padding-bottom: 10px;\<newline>'' @
     ''            }\<newline>'' @
     ''            .post {\<newline>'' @
     ''                margin-bottom: 30px;\<newline>'' @
     ''                padding: 15px;\<newline>'' @
     ''                border-radius: 5px;\<newline>'' @
     ''                background-color: #f9f9f9;\<newline>'' @
     ''                border-left: 4px solid #ff4500;\<newline>'' @
     ''            }\<newline>'' @
     ''            .subreddit {\<newline>'' @
     ''                color: #0079d3;\<newline>'' @
     ''                font-weight: bold;\<newline>'' @
     ''                margin-bottom: 5px;\<newline>'' @
     ''            }\<newline>'' @
     ''            .title {\<newline>'' @
     ''                font-size: 1.2em;\<newline>'' @
     ''                margin: 5px 0;\<newline>'' @
     ''            }\<newline>'' @
     ''            .title a {\<newline>'' @
     ''                color: #1a1a1b;\<newline>'' @
     ''                text-decoration: none;\<newline>'' @
     ''            }\<newline>'' @
     ''            .title a:hover {\<newline>'' @
     ''                text-decoration: underline;\<newline>'' @
     ''            }\<newline>'' @
     ''            .age {\<newline>'' @
     ''                color: #787c7e;\<newline>'' @
     ''                font-size: 0.9em;\<newline>'' @
     ''            }\<newline>'' @
     ''            .reason {\<newline>'' @
     ''                margin-top: 10px;\<newline>'' @
     ''                font-style: italic;\<newline>'' @
     ''                color: #4a4a4a;\<newline>'' @
     ''            }\<newline>'' @
     ''            .summary {\<newline>'' @
     ''                margin-top: 20px;\<newline>'' @
     ''                color: #666;\<newline>'' @
     ''            }\<newline>'' @
     ''        </style>\<newline>'' @
     ''    </head>\<newline>'' @
     ''    <body>\<newline>'' @
     ''        <h1>Reddit Idea Filter Report</h1>\<newline>'' @
     ''        <p>Generated on: ''\<close>

definition html_head_2 :: string where
  \<open>html_head_2 =
     ''</p>\<newline>'' @
     ''        \<newline>'' @
     ''        <div class="summary">\<newline>'' @
     ''            <p>Found ''\<close>

definition html_head_3 :: string where
  \<open>html_head_3 =
     '' posts matching your filter criteria.</p>\<newline>'' @
     ''        </div>\<newline>'' @
     ''    ''\<close>

text \<open>The literal pieces of the f-string of line 334.\<close>

definition html_block_1 :: string where
  \<open>html_block_1 =
     ''\<newline>'' @
     ''        <div class="post">\<newline>'' @
     ''            <div class="subreddit">r/''\<close>

definition html_block_2 :: string where
  \<open>html_block_2 =
     ''</div>\<newline>'' @
     ''            <div class="title">\<newline>'' @
     ''                <a href="''\<close>

definition html_block_3 :: string where
  \<open>html_block_3 =
     ''" target="_blank">\<newline>'' @
     ''                    ''\<close>

definition html_block_4 :: string where
  \<open>html_block_4 =
     '' <span class="age">(''\<close>

definition html_block_5 :: string where
  \<open>html_block_5 =
     '')</span>\<newline>'' @
     ''                </a>\<newline>'' @
     ''            </div>\<newline>'' @
     ''            <div class="reason">''\<close>

definition html_block_6 :: string where
  \<open>html_block_6 =
     ''</div>\<newline>'' @
     ''        </div>\<newline>'' @
     ''        ''\<close>

text \<open>The literal of line 346.\<close>

definition html_tail :: string where
  \<open>html_tail =
     ''\<newline>'' @
     ''    </body>\<newline>'' @
     ''    </html>\<newline>'' @
     ''    ''\<close>

text \<open>The block appended for one result (lines 334 to 344).\<close>

definition html_block :: "rat \<Rightarrow> post \<Rightarrow> string \<Rightarrow> string" where
  "html_block now p reason =
     html_block_1 @ subreddit p @ html_block_2 @ get_full_url p @ html_block_3 @ title p @
     html_block_4 @ get_age_str now p @ html_block_5 @ reason @ html_block_6"

text \<open>The loop of line 333: \<open>html\<close> is the document built so far.\<close>

fun render_loop :: "(nat \<Rightarrow> rat) \<Rightarrow> nat \<Rightarrow> string \<Rightarrow> (post \<times> string) list \<Rightarrow> string" where
  "render_loop t k html [] = html"
| "render_loop t k html ((p, reason) # rest) =
     render_loop t (Suc k) (html @ html_block (t k) p reason) rest"

definition build_html_report :: "clock \<Rightarrow> (post \<times> string) list \<Rightarrow> string" where
  "build_html_report clk filtered =
     (let timestamp = strftime_now clk;
          html = html_head_1 @ timestamp @ html_head_2 @ str_nat (length filtered) @
                 html_head_3;
          html = render_loop (time_time clk) 0 html filtered
      in html @ html_tail)"

section \<open>Delivery: \<open>send_email\<close>\<close>

text \<open>The message of lines 366 to 372.\<close>

record message =
  msg_subject :: string
  msg_from :: string
  msg_to :: string
  msg_html :: string

text \<open>
  The operations of the mail session, lines 375 to 379.  Each either succeeds or raises;
  \<open>run_session\<close> attempts them in order up to the first that raises and returns whether all
  succeeded, with the operations attempted.
\<close>

datatype smtp_op =
    Connect string int
  | StartTLS
  | Login string string
  | SendMessage message
  | Quit

fun run_session :: "(smtp_op \<Rightarrow> bool) \<Rightarrow> smtp_op list \<Rightarrow> smtp_op list \<Rightarrow> bool \<times> smtp_op list" where
  "run_session succeeds attempted [] = (True, attempted)"
| "run_session succeeds attempted (operation # rest) =
     (if succeeds operation then run_session succeeds (attempted @ [operation]) rest
      else (False, attempted @ [operation]))"

text \<open>
  Lines 354 to 384.  The result is the value returned, or the exception that leaves
  \<open>send_email\<close>, and the operations attempted on the network.  The recipient is \<open>None\<close> when
  the caller has none.  \<open>int\<close> is applied on line 357, before the check of line 362 and
  outside the \<open>try\<close> of line 374.
\<close>

definition send_email ::
  "environ \<Rightarrow> (smtp_op \<Rightarrow> bool) \<Rightarrow> string option \<Rightarrow> string \<Rightarrow> string \<Rightarrow>
     (py_exc + bool) \<times> smtp_op list" where
  "send_email env succeeds recipient subject html_content =
     (let smtp_server = getenv_default env ''SMTP_SERVER'' ''smtp.gmail.com'' in
      case py_int (getenv_default env ''SMTP_PORT'' ''587'') of
        None \<Rightarrow> (Inl ValueError, [])
      | Some smtp_port \<Rightarrow>
          let smtp_username = getenv env ''SMTP_USERNAME'';
              smtp_password = getenv env ''SMTP_PASSWORD'';
              sender_email = (case getenv env ''SENDER_EMAIL'' of
                                None \<Rightarrow> smtp_username | Some v \<Rightarrow> Some v)
          in if \<not> (truthy smtp_username \<and> truthy smtp_password \<and> truthy sender_email \<and>
                    truthy recipient)
             then (Inr False, [])
             else
               let msg = \<lparr>msg_subject = subject, msg_from = the sender_email,
                          msg_to = the recipient, msg_html = html_content\<rparr>;
                   (sent, attempted) =
                     run_session succeeds []
                       [Connect smtp_server smtp_port, StartTLS,
                        Login (the smtp_username) (the smtp_password), SendMessage msg, Quit]
               in (Inr sent, attempted))"

section \<open>Reading the report back\<close>

text \<open>
  Modelled from the spec: the repository has no parser for the report; the specification
  speaks of re-parsing the document's post blocks to recover titles and permalinks.  The
  parser below reads the document against the template of \<open>build_html_report\<close>: it
  checks each literal piece and takes each field up to the character that starts the next
  literal.  \<open>parse_blocks\<close> reads one block for each unit of fuel.
\<close>

definition expect :: "string \<Rightarrow> string \<Rightarrow> string option" where
  "expect lit s = (if prefix lit s then Some (drop (length lit) s) else None)"

definition until :: "char \<Rightarrow> string \<Rightarrow> string \<times> string" where
  "until c s = (takeWhile (\<lambda>x. x \<noteq> c) s, dropWhile (\<lambda>x. x \<noteq> c) s)"

text \<open>One block: the title, the permalink, and the text after the block.\<close>

definition parse_block :: "string \<Rightarrow> ((string \<times> string) \<times> string) option" where
  "parse_block s =
     (case expect html_block_1 s of None \<Rightarrow> None | Some s1 \<Rightarrow>
      let (sub, s2) = until CHR ''<'' s1 in
      case expect (html_block_2 @ reddit_origin) s2 of None \<Rightarrow> None | Some s3 \<Rightarrow>
      let (link, s4) = until CHR 0x22 s3 in
      case expect html_block_3 s4 of None \<Rightarrow> None | Some s5 \<Rightarrow>
      let (padded, s6) = until CHR ''<'' s5 in
      if padded = [] \<or> last padded \<noteq> CHR '' '' then None else
      case expect (tl html_block_4) s6 of None \<Rightarrow> None | Some s7 \<Rightarrow>
      let (age, s8) = until CHR '')'' s7 in
      case expect html_block_5 s8 of None \<Rightarrow> None | Some s9 \<Rightarrow>
      let (reason, s10) = until CHR ''<'' s9 in
      case expect html_block_6 s10 of None \<Rightarrow> None | Some rest \<Rightarrow>
      Some ((butlast padded, link), rest))"

fun parse_blocks :: "nat \<Rightarrow> string \<Rightarrow> (string \<times> string) list option" where
  "parse_blocks 0 s = None"
| "parse_blocks (Suc fuel) s =
     (case parse_block s of
        Some (x, rest) \<Rightarrow> map_option ((#) x) (parse_blocks fuel rest)
      | None \<Rightarrow> if s = html_tail then Some [] else None)"

text \<open>Modelled from the spec: the titles and permalinks of the blocks, in document order.\<close>

definition parse_report :: "string \<Rightarrow> (string \<times> string) list option" where
  "parse_report doc =
     (case expect html_head_1 doc of None \<Rightarrow> None | Some s1 \<Rightarrow>
      let (timestamp, s2) = until CHR ''<'' s1 in
      case expect html_head_2 s2 of None \<Rightarrow> None | Some s3 \<Rightarrow>
      let (count, s4) = until CHR '' '' s3 in
      case expect html_head_3 s4 of None \<Rightarrow> None | Some s5 \<Rightarrow>
      parse_blocks (length s5) s5)"

section \<open>Auxiliary definitions\<close>

subsection \<open>The result of the loop, call by call\<close>

text \<open>What the \<open>n\<close>-th call contributes to \<open>filtered_posts\<close>.\<close>

definition accepted_of :: "chat_model \<Rightarrow> string \<Rightarrow> nat \<Rightarrow> post \<Rightarrow> (post \<times> string) list" where
  "accepted_of model crit n p =
     (case handle_completion (model n (prompt crit p)) of
        Inr (Some reason) \<Rightarrow> [(p, reason)]
      | _ \<Rightarrow> [])"

fun accepted_from :: "chat_model \<Rightarrow> string \<Rightarrow> nat \<Rightarrow> post list \<Rightarrow> (post \<times> string) list" where
  "accepted_from model crit n [] = []"
| "accepted_from model crit n (p # ps) =
     accepted_of model crit n p @ accepted_from model crit (Suc n) ps"

text \<open>Whether a call's outcome is an acceptance.\<close>

definition accepts :: "chat_result \<Rightarrow> bool" where
  "accepts c = (case handle_completion c of Inr (Some _) \<Rightarrow> True | _ \<Rightarrow> False)"

subsection \<open>The parsing rule as a rule on segments\<close>

text \<open>
  The text before the first line break, and the text after it when there is a line break.
\<close>

definition first_segment :: "string \<Rightarrow> string" where
  "first_segment s = takeWhile (\<lambda>c. c \<noteq> newline) s"

definition second_segment :: "string \<Rightarrow> string option" where
  "second_segment s =
     (if newline \<in> set s then Some (tl (dropWhile (\<lambda>c. c \<noteq> newline) s)) else None)"

text \<open>
  The rule in the words of the specification, applied to the raw content: split on the first
  line break; the first segment, case-normalised, is the decision; accept with the trimmed
  second segment when the decision is \<open>YES\<close> and a second segment exists.
\<close>

definition spec_classify :: "string \<Rightarrow> string option" where
  "spec_classify raw =
     (case second_segment raw of
        None \<Rightarrow> None
      | Some seg \<Rightarrow> if upper (first_segment raw) = ''YES'' then Some (strip seg) else None)"

text \<open>
  The same rule with the two trimmings of the code: the content is trimmed before it is
  split, and the first segment is trimmed before it is compared.
\<close>

definition trimmed_classify :: "string \<Rightarrow> string option" where
  "trimmed_classify raw =
     (let r = strip raw in
      case second_segment r of
        None \<Rightarrow> None
      | Some seg \<Rightarrow> if upper (strip (first_segment r)) = ''YES'' then Some (strip seg) else None)"

subsection \<open>The blocks of the report\<close>

text \<open>The text that the loop of line 333 appends, the \<open>k\<close>-th reading of the clock first.\<close>

fun html_blocks :: "(nat \<Rightarrow> rat) \<Rightarrow> nat \<Rightarrow> (post \<times> string) list \<Rightarrow> string" where
  "html_blocks t k [] = []"
| "html_blocks t k ((p, reason) # rest) = html_block (t k) p reason @ html_blocks t (Suc k) rest"

subsection \<open>Round trip\<close>

text \<open>What the round trip is to recover.\<close>

definition titles_and_permalinks :: "(post \<times> string) list \<Rightarrow> (string \<times> string) list" where
  "titles_and_permalinks results = map (\<lambda>(p, reason). (title p, permalink p)) results"

text \<open>
  A result without the characters that delimit its fields in the template: no \<open><\<close> in the
  subreddit name, the title and the reason, no double quote in the permalink.
\<close>

definition plain_result :: "post \<times> string \<Rightarrow> bool" where
  "plain_result x =
     (case x of (p, reason) \<Rightarrow>
        CHR ''<'' \<notin> set (subreddit p) \<and> CHR 0x22 \<notin> set (permalink p) \<and>
        CHR ''<'' \<notin> set (title p) \<and> CHR ''<'' \<notin> set reason)"

subsection \<open>Outcomes of the anonymous request\<close>

text \<open>The request-level failures: no response, a status from 400 to 599, a body that is not JSON.\<close>

definition request_failed :: "http_result \<Rightarrow> bool" where
  "request_failed r =
     (case r of
        RequestFails \<Rightarrow> True
      | Response status body \<Rightarrow> (400 \<le> status \<and> status < 600) \<or> body = None)"


section \<open>Sample inputs\<close>

definition post0 :: post where
  "post0 = \<lparr>title = ''Any tool for lease tracking?'', author = ''alice'', score = 3,
            url = ''https://www.reddit.com/r/PropTech/comments/abc/x/'',
            created_utc = 1700000000, num_comments = 2, selftext = Some ''Looking for one.'',
            subreddit = ''PropTech'', permalink = ''/r/PropTech/comments/abc/x/''\<rparr>"

definition env0 :: environ where
  "env0 = (\<lambda>name. if name = ''OPENROUTER_KEY'' then Some ''sk-or-v1-0123456789'' else None)"

definition post1 :: post where
  "post1 = \<lparr>title = ''We launched our CRM'', author = ''bob'', score = 1,
            url = ''https://example.com/crm'',
            created_utc = 1700000100, num_comments = 0, selftext = None,
            subreddit = ''PropTech'', permalink = ''/r/PropTech/comments/abd/y/''\<rparr>"

definition model0 :: chat_model where
  "model0 n pr = (if n = 0 then Completion [Some ''Maybe?'']
                  else Completion [Some ''YES\<newline>Open question about tooling.''])"

definition model1 :: chat_model where
  "model1 n pr = (if n = 0 then CallRaises
                  else Completion [Some ''YES\<newline>Open question about tooling.''])"

definition clock0 :: clock where
  "clock0 = \<lparr>strftime_now = ''2023-11-14 22:15:30'', time_time = (\<lambda>k. 1700000130)\<rparr>"

definition clock1 :: clock where
  "clock1 = \<lparr>strftime_now = ''2023-11-14 22:15:30'', time_time = (\<lambda>k. 1700000150 + of_nat k)\<rparr>"

definition clock2 :: clock where
  "clock2 = \<lparr>strftime_now = ''2023-11-14 22:16:31'', time_time = (\<lambda>k. 1700000191)\<rparr>"

definition post_markup :: post where
  "post_markup = post0\<lparr>title := ''<b>Free</b> CRM & more''\<rparr>"

text \<open>
  Two posts that differ in title and permalink: the literal between the link and the title
  is part of the title of the one and of the permalink of the other.
\<close>

definition post_a :: post where
  "post_a = post0\<lparr>title := ''One'' @ html_block_3 @ ''Two'', permalink := ''/r/x/''\<rparr>"

definition post_b :: post where
  "post_b = post0\<lparr>title := ''Two'', permalink := ''/r/x/'' @ html_block_3 @ ''One''\<rparr>"

definition mail_env :: environ where
  "mail_env = (\<lambda>name.
     if name = ''SMTP_USERNAME'' then Some ''digest@example.com''
     else if name = ''SMTP_PASSWORD'' then Some ''app-password''
     else None)"

definition mail_env_bad_port :: environ where
  "mail_env_bad_port = (\<lambda>name.
     if name = ''SMTP_SERVER'' then Some ''smtp.example.com''
     else if name = ''SMTP_PORT'' then Some ''''
     else if name = ''SMTP_USERNAME'' then Some ''digest@example.com''
     else if name = ''SMTP_PASSWORD'' then Some ''app-password''
     else None)"

definition mail_env_no_password :: environ where
  "mail_env_no_password = (\<lambda>name.
     if name = ''SMTP_SERVER'' then Some ''smtp.example.com''
     else if name = ''SMTP_PORT'' then Some ''465''
     else if name = ''SMTP_USERNAME'' then Some ''digest@example.com''
     else None)"

definition no_credentials :: environ where
  "no_credentials = (\<lambda>name. if name = ''OPENROUTER_KEY'' then Some ''sk-or-v1-0123456789'' else None)"



definition praw_raises :: "praw_request \<Rightarrow> praw_run" where
  "praw_raises request = \<lparr>yielded = [], raised = True\<rparr>"



section \<open>Properties\<close>

subsection \<open>The post source\<close>





lemma anonymous_path_request_failed:
  "request_failed (http_get (anonymous_request env sr limit ua)) \<Longrightarrow>
   anonymous_path env http_get sr limit ua acc = Inr acc"
  by (auto simp: anonymous_path_def anonymous_try_def request_failed_def
      split: http_result.splits option.splits)


lemmas fetch_eval = fetch_new_posts_def anonymous_path_def anonymous_try_def anonymous_request_def
  authenticated_request_def user_agent_of_def getenv_def getenv_default_def and_then_def Let_def





text \<open>
  With no post from the authenticated path, a request-level failure of the anonymous path
  gives the empty list.
\<close>

lemma fetch_request_failure_empty:
  assumes "\<not> (truthy (getenv env ''REDDIT_CLIENT_ID'') \<and> truthy (getenv env ''REDDIT_CLIENT_SECRET''))
           \<or> praw (authenticated_request env sr limit) = \<lparr>yielded = [], raised = True\<rparr>"
    and "request_failed (http_get (anonymous_request env sr limit (user_agent_of env)))"
  shows "fetch_new_posts env praw http_get sr limit = Inr []"
  using assms anonymous_path_request_failed[of http_get env sr limit "user_agent_of env" "[]"]
  by (auto simp: fetch_new_posts_def Let_def)

text \<open>
  Claim C4 fails on the code.  Without credentials, an anonymous response with status 200
  whose JSON body has no \<open>data\<close> member makes line 163 raise \<open>KeyError\<close>, which the clause of
  line 180 does not catch: the exception reaches the caller.
\<close>

theorem fetch_unexpected_body_raises:
  "fetch_new_posts no_credentials praw_raises
     (\<lambda>request. Response 200 (Some (JObj [(''error'', JStr ''blocked'')]))) ''PropTech'' 10 =
   Inl (Raised KeyError)"
  by (simp add: fetch_eval no_credentials_def)

subsection \<open>The classifier\<close>

lemma filter_step_calls:
  "calls (filter_step m k c posts st p) = calls st @ [prompt c p]"
  by (simp add: filter_step_def Let_def split: sum.splits option.splits)

lemma filter_step_filtered:
  "filtered_posts (filter_step m k c posts st p) =
     filtered_posts st @ accepted_of m c (length (calls st)) p"
  by (simp add: filter_step_def accepted_of_def Let_def split: sum.splits option.splits)

lemma filter_loop_calls:
  "calls (filter_loop m k c posts st ps) = calls st @ map (prompt c) ps"
  by (induction ps arbitrary: st) (simp_all add: filter_step_calls)

lemma filter_loop_filtered:
  "filtered_posts (filter_loop m k c posts st ps) =
     filtered_posts st @ accepted_from m c (length (calls st)) ps"
  by (induction ps arbitrary: st) (simp_all add: filter_step_calls filter_step_filtered)

lemma accepted_from_append:
  "accepted_from m c n (xs @ ys) = accepted_from m c n xs @ accepted_from m c (n + length xs) ys"
  by (induction xs arbitrary: n) simp_all

lemma subseq_accepted_of: "subseq (map fst (accepted_of m c n p)) [p]"
  by (simp add: accepted_of_def split: sum.splits option.splits)

lemma subseq_accepted_from: "subseq (map fst (accepted_from m c n ps)) ps"
proof (induction ps arbitrary: n)
  case Nil show ?case by simp
next
  case (Cons p ps)
  have "subseq (map fst (accepted_of m c n p) @ map fst (accepted_from m c (Suc n) ps)) ([p] @ ps)"
    by (rule list_emb_append_mono[OF subseq_accepted_of Cons.IH])
  then show ?case by simp
qed

lemma split_max_once:
  "split_max sep (Suc 0) s =
     (if sep \<in> set s
      then [takeWhile (\<lambda>c. c \<noteq> sep) s, tl (dropWhile (\<lambda>c. c \<noteq> sep) s)]
      else [s])"
proof (cases "sep \<in> set s")
  case True
  then have "dropWhile (\<lambda>c. c \<noteq> sep) s \<noteq> []"
    by auto
  then obtain x rest where d: "dropWhile (\<lambda>c. c \<noteq> sep) s = x # rest"
    by (cases "dropWhile (\<lambda>c. c \<noteq> sep) s") auto
  show ?thesis by (simp add: d True)
next
  case False
  then have d: "dropWhile (\<lambda>c. c \<noteq> sep) s = []"
    by auto
  show ?thesis by (simp add: d False)
qed

lemma parse_response_segments:
  "parse_response r =
     (case second_segment r of
        None \<Rightarrow> None
      | Some seg \<Rightarrow> if upper (strip (first_segment r)) = ''YES'' then Some (strip seg) else None)"
  by (simp add: parse_response_def split_max_once first_segment_def second_segment_def Let_def
      del: split_max.simps)

lemma handle_completion_trimmed:
  "handle_completion (Completion (Some raw # others)) = Inr (trimmed_classify raw)"
  by (simp add: trimmed_classify_def parse_response_segments Let_def)

lemma filter_posts_filtered:
  "getenv env ''OPENROUTER_KEY'' = Some key \<Longrightarrow> key \<noteq> [] \<Longrightarrow>
   filtered_posts (filter_posts_with_gemini env model posts crit) = accepted_from model crit 0 posts"
  by (simp add: filter_posts_with_gemini_def filter_loop_filtered)

lemma filter_posts_calls:
  "getenv env ''OPENROUTER_KEY'' = Some key \<Longrightarrow> key \<noteq> [] \<Longrightarrow>
   calls (filter_posts_with_gemini env model posts crit) = map (prompt crit) posts"
  by (simp add: filter_posts_with_gemini_def filter_loop_calls)

lemma filter_posts_no_key:
  "\<not> truthy (getenv env ''OPENROUTER_KEY'') \<Longrightarrow>
   filtered_posts (filter_posts_with_gemini env model posts crit) = [] \<and>
   calls (filter_posts_with_gemini env model posts crit) = []"
  by (cases "getenv env ''OPENROUTER_KEY''") (simp_all add: filter_posts_with_gemini_def)

lemmas str_eval = newline_def strip_def lstrip_def rstrip_def isspace_def whitespace_def upper_def
  upper_chr_def first_segment_def second_segment_def

text \<open>
  Claim C1, as amended.  The content returned by the model is trimmed, then split on the
  first line break; the first segment, trimmed and upper-cased, is the decision; the post is
  accepted, with the trimmed second segment as reason, exactly when the decision is
  \<open>YES\<close> and a second segment exists.  The three examples of the specification follow:
  \<open>"YES\nSolves X problem"\<close> is accepted with reason \<open>"Solves X problem"\<close>, \<open>"NO"\<close>
  and a lone \<open>"YES"\<close> are rejected.
\<close>

theorem classify_rule:
  assumes "getenv env ''OPENROUTER_KEY'' = Some key" and "key \<noteq> []"
  shows "filtered_posts
           (filter_posts_with_gemini env (\<lambda>n pr. Completion (Some raw # others)) [p] crit) =
           (case trimmed_classify raw of None \<Rightarrow> [] | Some reason \<Rightarrow> [(p, reason)])
         \<and> trimmed_classify ''YES\<newline>Solves X problem'' = Some ''Solves X problem''
         \<and> trimmed_classify ''NO'' = None
         \<and> trimmed_classify ''YES'' = None"
proof -
  have "filtered_posts
           (filter_posts_with_gemini env (\<lambda>n pr. Completion (Some raw # others)) [p] crit) =
           (case trimmed_classify raw of None \<Rightarrow> [] | Some reason \<Rightarrow> [(p, reason)])"
    using assms
    by (simp add: filter_posts_filtered accepted_of_def handle_completion_trimmed
        del: handle_completion.simps split: option.splits)
  moreover have "trimmed_classify ''YES\<newline>Solves X problem'' = Some ''Solves X problem''"
    by (simp add: trimmed_classify_def str_eval)
  moreover have "trimmed_classify ''NO'' = None"
    by (simp add: trimmed_classify_def str_eval)
  moreover have "trimmed_classify ''YES'' = None"
    by (simp add: trimmed_classify_def str_eval)
  ultimately show ?thesis by blast
qed

text \<open>An instance of the rule, where both trimmings matter.\<close>

theorem classify_rule_witness:
  "getenv env0 ''OPENROUTER_KEY'' = Some ''sk-or-v1-0123456789'' \<and> ''sk-or-v1-0123456789'' \<noteq> []
   \<and> filtered_posts
        (filter_posts_with_gemini env0 (\<lambda>n pr. Completion [Some '' yes \<newline> Fits. \<newline>'']) [post0] ''crit'')
      = [(post0, ''Fits.'')]"
proof -
  have k: "getenv env0 ''OPENROUTER_KEY'' = Some ''sk-or-v1-0123456789''"
    by (simp add: getenv_def env0_def)
  have n: "''sk-or-v1-0123456789'' \<noteq> []" by simp
  have t: "trimmed_classify '' yes \<newline> Fits. \<newline>'' = Some ''Fits.''"
    by (simp add: trimmed_classify_def str_eval)
  show ?thesis
    using classify_rule [OF k n, of "'' yes \<newline> Fits. \<newline>''" "[]" post0 "''crit''"] k t by simp
qed

text \<open>
  Claim C1 as stated fails on a content that starts with a line break: the code trims it
  and accepts, while splitting the raw content leaves an empty first segment.
\<close>

theorem classify_rule_counterexample:
  "handle_completion (Completion [Some ''\<newline>YES\<newline>Solves X problem'']) = Inr (Some ''Solves X problem'')
   \<and> spec_classify ''\<newline>YES\<newline>Solves X problem'' = None"
  by (simp add: spec_classify_def parse_response_def str_eval)

lemma accepted_of_rejected: "\<not> accepts (m n (prompt c p)) \<Longrightarrow> accepted_of m c n p = []"
  by (simp add: accepts_def accepted_of_def split: sum.splits option.splits)

lemma accepted_of_failed:
  "handle_completion (m n (prompt c p)) = Inl e \<Longrightarrow> accepted_of m c n p = []"
  by (simp add: accepted_of_def)

lemma accepted_from_nth:
  assumes "i < length ps"
  shows "accepted_from m c n ps =
           accepted_from m c n (take i ps) @ accepted_of m c (n + i) (ps ! i) @
           accepted_from m c (Suc (n + i)) (drop (Suc i) ps)"
proof -
  have "ps = take i ps @ (ps ! i # drop (Suc i) ps)"
    using assms by (simp add: id_take_nth_drop)
  then have "accepted_from m c n ps = accepted_from m c n (take i ps @ (ps ! i # drop (Suc i) ps))"
    by simp
  also have "\<dots> = accepted_from m c n (take i ps) @ accepted_of m c (n + i) (ps ! i) @
           accepted_from m c (Suc (n + i)) (drop (Suc i) ps)"
    using assms by (simp add: accepted_from_append min_def)
  finally show ?thesis .
qed

lemma accepted_from_cong:
  "(\<And>j. n \<le> j \<Longrightarrow> j < n + length ps \<Longrightarrow> m j = m' j) \<Longrightarrow>
   accepted_from m c n ps = accepted_from m' c n ps"
proof (induction ps arbitrary: n)
  case Nil
  show ?case by simp
next
  case (Cons p ps)
  have "m n = m' n" using Cons.prems[of n] by simp
  moreover have "accepted_from m c (Suc n) ps = accepted_from m' c (Suc n) ps"
    using Cons.prems by (intro Cons.IH) simp_all
  ultimately show ?case by (simp add: accepted_of_def)
qed

lemma subseq_set: "subseq xs ys \<Longrightarrow> set xs \<subseteq> set ys"
  by (induction rule: list_emb.induct) auto

lemma subseq_distinct: "subseq xs ys \<Longrightarrow> distinct ys \<Longrightarrow> distinct xs"
proof (induction rule: list_emb.induct)
  case (list_emb_Nil ys)
  show ?case by simp
next
  case (list_emb_Cons xs ys y)
  then show ?case by simp
next
  case (list_emb_Cons2 x y xs ys)
  moreover from list_emb_Cons2.hyps(2) have "set xs \<subseteq> set ys" by (rule subseq_set)
  ultimately show ?case by auto
qed

lemma nth_not_in_rest:
  assumes "distinct ps" "i < length ps"
  shows "ps ! i \<notin> set (take i ps @ drop (Suc i) ps)"
proof -
  have "distinct (take i ps @ (ps ! i # drop (Suc i) ps))"
    using assms by (simp add: id_take_nth_drop[symmetric])
  then show ?thesis by auto
qed

lemma subseq_without_rejected:
  assumes "i < length ps" "accepted_of m c (n + i) (ps ! i) = []"
  shows "subseq (map fst (accepted_from m c n ps)) (take i ps @ drop (Suc i) ps)"
proof -
  have "accepted_from m c n ps =
          accepted_from m c n (take i ps) @ accepted_from m c (Suc (n + i)) (drop (Suc i) ps)"
    using accepted_from_nth[OF assms(1), of m c n] assms(2) by simp
  moreover have "subseq (map fst (accepted_from m c n (take i ps)) @
                   map fst (accepted_from m c (Suc (n + i)) (drop (Suc i) ps)))
                  (take i ps @ drop (Suc i) ps)"
    by (rule list_emb_append_mono[OF subseq_accepted_from subseq_accepted_from])
  ultimately show ?thesis by simp
qed

lemma filter_posts_accepted_from:
  "filtered_posts (filter_posts_with_gemini env model posts crit) =
     (if truthy (getenv env ''OPENROUTER_KEY'') then accepted_from model crit 0 posts else [])"
  by (cases "getenv env ''OPENROUTER_KEY''")
     (simp_all add: filter_posts_with_gemini_def filter_loop_filtered)

lemma filter_posts_calls_truthy:
  "truthy (getenv env ''OPENROUTER_KEY'') \<Longrightarrow>
   calls (filter_posts_with_gemini env model posts crit) = map (prompt crit) posts"
  by (cases "getenv env ''OPENROUTER_KEY''")
     (simp_all add: filter_posts_with_gemini_def filter_loop_calls)

text \<open>
  Claim C2.  The posts of the classifier's output form a subsequence of the input posts: they
  are input posts, in input order, and each input post contributes at most one pair.  A post
  whose call does not end in an acceptance (a raised call, a missing content, a response of
  any other shape) contributes nothing: the output is a subsequence of the other posts, and
  when the input posts are pairwise different the post does not occur in the output.  With
  the key present, each post is classified exactly once in a run: the calls made are the
  prompts of the input posts, one for each post, in input order.
\<close>

theorem classifier_output_subset:
  "subseq (map fst (filtered_posts (filter_posts_with_gemini env model posts crit))) posts
   \<and> (\<forall>i<length posts. \<not> accepts (model i (prompt crit (posts ! i))) \<longrightarrow>
         subseq (map fst (filtered_posts (filter_posts_with_gemini env model posts crit)))
                (take i posts @ drop (Suc i) posts))
   \<and> (distinct posts \<longrightarrow>
         distinct (map fst (filtered_posts (filter_posts_with_gemini env model posts crit))) \<and>
         (\<forall>i<length posts. \<not> accepts (model i (prompt crit (posts ! i))) \<longrightarrow>
            posts ! i \<notin> fst ` set (filtered_posts (filter_posts_with_gemini env model posts crit))))
   \<and> (truthy (getenv env ''OPENROUTER_KEY'') \<longrightarrow>
         calls (filter_posts_with_gemini env model posts crit) = map (prompt crit) posts)"
proof -
  define out where "out = map fst (filtered_posts (filter_posts_with_gemini env model posts crit))"
  have goal: "subseq out posts
         \<and> (\<forall>i<length posts. \<not> accepts (model i (prompt crit (posts ! i))) \<longrightarrow>
               subseq out (take i posts @ drop (Suc i) posts))
         \<and> (distinct posts \<longrightarrow>
               distinct out \<and>
               (\<forall>i<length posts. \<not> accepts (model i (prompt crit (posts ! i))) \<longrightarrow>
                  posts ! i \<notin> set out))"
  proof (cases "truthy (getenv env ''OPENROUTER_KEY'')")
    case False
    then have "out = []" by (simp add: out_def filter_posts_accepted_from)
    then show ?thesis by simp
  next
    case True
    then have out: "out = map fst (accepted_from model crit 0 posts)"
      by (simp add: out_def filter_posts_accepted_from)
    have a: "subseq out posts"
      unfolding out by (rule subseq_accepted_from)
    have b: "subseq out (take i posts @ drop (Suc i) posts)"
      if "i < length posts" "\<not> accepts (model i (prompt crit (posts ! i)))" for i
      unfolding out
      using subseq_without_rejected[OF that(1), of model crit 0]
        accepted_of_rejected[of model i crit "posts ! i", OF that(2)] by simp
    have c: "posts ! i \<notin> set out"
      if "distinct posts" "i < length posts" "\<not> accepts (model i (prompt crit (posts ! i)))" for i
      using subseq_set[OF b[OF that(2,3)]] nth_not_in_rest[OF that(1,2)] by blast
    have d: "distinct out" if "distinct posts"
      using subseq_distinct[OF a that] .
    from a b c d show ?thesis by blast
  qed
  moreover have "calls (filter_posts_with_gemini env model posts crit) = map (prompt crit) posts"
    if "truthy (getenv env ''OPENROUTER_KEY'')"
    using that by (rule filter_posts_calls_truthy)
  ultimately show ?thesis by (simp add: out_def)
qed

text \<open>
  Two posts, the first with a malformed response, the second accepted: the output is the
  second post with its reason, and the calls are the two prompts.
\<close>

theorem classifier_output_subset_witness:
  "distinct [post1, post0] \<and> (0::nat) < length [post1, post0]
   \<and> \<not> accepts (model0 0 (prompt ''crit'' ([post1, post0] ! 0)))
   \<and> truthy (getenv env0 ''OPENROUTER_KEY'')
   \<and> [post1, post0] ! 0 \<notin> fst ` set (filtered_posts (filter_posts_with_gemini env0 model0 [post1, post0] ''crit''))
   \<and> subseq (map fst (filtered_posts (filter_posts_with_gemini env0 model0 [post1, post0] ''crit''))) [post0]
   \<and> filtered_posts (filter_posts_with_gemini env0 model0 [post1, post0] ''crit'') =
        [(post0, ''Open question about tooling.'')]
   \<and> calls (filter_posts_with_gemini env0 model0 [post1, post0] ''crit'') =
        [prompt ''crit'' post1, prompt ''crit'' post0]"
proof -
  have d: "distinct [post1, post0]" by (simp add: post0_def post1_def)
  have r: "\<not> accepts (model0 0 (prompt ''crit'' ([post1, post0] ! 0)))"
    by (simp add: accepts_def model0_def parse_response_def str_eval)
  have l: "(0::nat) < length [post1, post0]" by simp
  have k: "getenv env0 ''OPENROUTER_KEY'' = Some ''sk-or-v1-0123456789''"
    by (simp add: getenv_def env0_def)
  have n0: "''sk-or-v1-0123456789'' \<noteq> []" by simp
  from k have tr: "truthy (getenv env0 ''OPENROUTER_KEY'')" by simp
  note t = classifier_output_subset [of env0 model0 "[post1, post0]" "''crit''"]
  from t tr
  have "calls (filter_posts_with_gemini env0 model0 [post1, post0] ''crit'') =
          map (prompt ''crit'') [post1, post0]"
    by blast
  then have c: "calls (filter_posts_with_gemini env0 model0 [post1, post0] ''crit'') =
        [prompt ''crit'' post1, prompt ''crit'' post0]"
    by simp
  have f: "filtered_posts (filter_posts_with_gemini env0 model0 [post1, post0] ''crit'') =
        [(post0, ''Open question about tooling.'')]"
    by (simp add: filter_posts_filtered[OF k n0] accepted_of_def model0_def parse_response_def
        str_eval)
  from t d l r
  have n: "[post1, post0] ! 0 \<notin> fst ` set (filtered_posts (filter_posts_with_gemini env0 model0 [post1, post0] ''crit''))"
    by blast
  from t l r
  have "subseq (map fst (filtered_posts (filter_posts_with_gemini env0 model0 [post1, post0] ''crit'')))
          (take 0 [post1, post0] @ drop (Suc 0) [post1, post0])"
    by blast
  then have s: "subseq (map fst (filtered_posts (filter_posts_with_gemini env0 model0 [post1, post0] ''crit''))) [post0]"
    by simp
  from d l r tr n s f c show ?thesis by blast
qed

lemma filter_loop_append:
  "filter_loop m k c posts st (xs @ ys) = filter_loop m k c posts (filter_loop m k c posts st xs) ys"
  by (induction xs arbitrary: st) simp_all

lemma filter_step_logged_mono:
  "set (logged st) \<subseteq> set (logged (filter_step m k c posts st p))"
  by (auto simp: filter_step_def Let_def split: sum.splits option.splits)

lemma filter_loop_logged_mono:
  "set (logged st) \<subseteq> set (logged (filter_loop m k c posts st ps))"
proof (induction ps arbitrary: st)
  case Nil
  show ?case by simp
next
  case (Cons p ps)
  have "set (logged st) \<subseteq> set (logged (filter_step m k c posts st p))"
    by (rule filter_step_logged_mono)
  also have "\<dots> \<subseteq> set (logged (filter_loop m k c posts (filter_step m k c posts st p) ps))"
    by (rule Cons.IH)
  finally show ?case by simp
qed

lemma filter_step_logs_error:
  "handle_completion (m (length (calls st)) (prompt c p)) = Inl e \<Longrightarrow>
   ErrorFiltering (title p) e \<in> set (logged (filter_step m k c posts st p))"
  by (cases "p = hd posts") (simp_all add: filter_step_def Let_def)

lemma filter_loop_logs_error:
  assumes "i < length ps" and "handle_completion (m (length (calls st) + i) (prompt c (ps ! i))) = Inl e"
  shows "ErrorFiltering (title (ps ! i)) e \<in> set (logged (filter_loop m k c posts st ps))"
proof -
  define st1 where "st1 = filter_loop m k c posts st (take i ps)"
  have len: "length (calls st1) = length (calls st) + i"
    using assms(1) by (simp add: st1_def filter_loop_calls)
  have ps: "ps = take i ps @ (ps ! i # drop (Suc i) ps)"
    using assms(1) by (simp add: id_take_nth_drop)
  have "filter_loop m k c posts st ps =
          filter_loop m k c posts (filter_step m k c posts st1 (ps ! i)) (drop (Suc i) ps)"
    by (subst ps) (simp add: filter_loop_append st1_def)
  moreover have "ErrorFiltering (title (ps ! i)) e \<in> set (logged (filter_step m k c posts st1 (ps ! i)))"
    using assms(2) len by (intro filter_step_logs_error) simp
  ultimately show ?thesis
    using filter_loop_logged_mono[of "filter_step m k c posts st1 (ps ! i)" m k c posts "drop (Suc i) ps"]
    by auto
qed

lemma handle_completion_NO: "handle_completion (Completion [Some ''NO'']) = Inr None"
  by (simp add: parse_response_def str_eval)

lemma accepted_from_reject_instead:
  assumes "i < length ps" and "handle_completion (m (n + i) (prompt c (ps ! i))) = Inl e"
  shows "accepted_from m c n ps =
         accepted_from (m(n + i := \<lambda>pr. Completion [Some ''NO''])) c n ps"
proof -
  let ?m' = "m(n + i := \<lambda>pr. Completion [Some ''NO''])"
  have a: "accepted_from m c n (take i ps) = accepted_from ?m' c n (take i ps)"
    using assms(1) by (intro accepted_from_cong) simp
  have b: "accepted_from m c (Suc (n + i)) (drop (Suc i) ps) =
           accepted_from ?m' c (Suc (n + i)) (drop (Suc i) ps)"
    by (intro accepted_from_cong) simp
  have c: "accepted_of m c (n + i) (ps ! i) = []"
    using assms(2) by (rule accepted_of_failed)
  have d: "accepted_of ?m' c (n + i) (ps ! i) = []"
    by (simp add: accepted_of_def handle_completion_NO del: handle_completion.simps)
  show ?thesis
    by (simp add: accepted_from_nth[OF assms(1), of m c n] accepted_from_nth[OF assms(1), of ?m' c n]
        a b c d)
qed

text \<open>
  Claim C3.  When the call for one post, or the handling of its response, raises (the call
  itself raises, the completion has no choices, the content is missing), the exception is
  logged, the loop goes on, and every post is sent to the model exactly once, in order: the
  failed call is not repeated.  The accepted pairs are those of the run in which that call
  had answered \<open>NO\<close>.
\<close>

theorem failed_call_is_rejection:
  assumes "getenv env ''OPENROUTER_KEY'' = Some key" and "key \<noteq> []"
    and "i < length posts"
    and "handle_completion (model i (prompt crit (posts ! i))) = Inl e"
  shows "filtered_posts (filter_posts_with_gemini env model posts crit) =
           filtered_posts (filter_posts_with_gemini env
              (model(i := \<lambda>pr. Completion [Some ''NO''])) posts crit)
         \<and> calls (filter_posts_with_gemini env model posts crit) = map (prompt crit) posts
         \<and> ErrorFiltering (title (posts ! i)) e
              \<in> set (logged (filter_posts_with_gemini env model posts crit))"
proof -
  have "accepted_from model crit 0 posts =
        accepted_from (model(i := \<lambda>pr. Completion [Some ''NO''])) crit 0 posts"
    using accepted_from_reject_instead[OF assms(3), of model 0 crit e] assms(4) by simp
  then have a: "filtered_posts (filter_posts_with_gemini env model posts crit) =
           filtered_posts (filter_posts_with_gemini env
              (model(i := \<lambda>pr. Completion [Some ''NO''])) posts crit)"
    using assms(1,2) by (simp add: filter_posts_filtered)
  have b: "calls (filter_posts_with_gemini env model posts crit) = map (prompt crit) posts"
    using assms(1,2) by (rule filter_posts_calls)
  have "ErrorFiltering (title (posts ! i)) e \<in> set (logged (filter_loop model key crit posts
           \<lparr>filtered_posts = [], calls = [], logged = []\<rparr> posts))"
    using assms(3,4) by (intro filter_loop_logs_error) simp_all
  then have c: "ErrorFiltering (title (posts ! i)) e
              \<in> set (logged (filter_posts_with_gemini env model posts crit))"
    using assms(1,2) by (simp add: filter_posts_with_gemini_def)
  from a b c show ?thesis by blast
qed

text \<open>The first call raises; the second post is accepted all the same.\<close>

theorem failed_call_is_rejection_witness:
  "getenv env0 ''OPENROUTER_KEY'' = Some ''sk-or-v1-0123456789'' \<and> ''sk-or-v1-0123456789'' \<noteq> []
   \<and> (0::nat) < length [post1, post0]
   \<and> handle_completion (model1 0 (prompt ''crit'' ([post1, post0] ! 0))) = Inl ApiError
   \<and> filtered_posts (filter_posts_with_gemini env0 model1 [post1, post0] ''crit'') =
       [(post0, ''Open question about tooling.'')]
   \<and> length (calls (filter_posts_with_gemini env0 model1 [post1, post0] ''crit'')) = 2"
proof -
  have k: "getenv env0 ''OPENROUTER_KEY'' = Some ''sk-or-v1-0123456789''"
    by (simp add: getenv_def env0_def)
  have n: "''sk-or-v1-0123456789'' \<noteq> []" by simp
  have l: "(0::nat) < length [post1, post0]" by simp
  have h: "handle_completion (model1 0 (prompt ''crit'' ([post1, post0] ! 0))) = Inl ApiError"
    by (simp add: model1_def)
  note t = failed_call_is_rejection
    [of env0 "''sk-or-v1-0123456789''" 0 "[post1, post0]" model1 "''crit''" ApiError, OF k n l h]
  have "filtered_posts (filter_posts_with_gemini env0
           (model1(0 := \<lambda>pr. Completion [Some ''NO''])) [post1, post0] ''crit'') =
         [(post0, ''Open question about tooling.'')]"
    by (simp add: filter_posts_filtered[OF k n] accepted_of_def model1_def parse_response_def str_eval)
  with t have f: "filtered_posts (filter_posts_with_gemini env0 model1 [post1, post0] ''crit'') =
       [(post0, ''Open question about tooling.'')]"
    by simp
  from t have c: "length (calls (filter_posts_with_gemini env0 model1 [post1, post0] ''crit'')) = 2"
    by simp
  from k n l h f c show ?thesis by blast
qed

subsection \<open>The report renderer\<close>

lemma render_loop_blocks: "render_loop t k html rs = html @ html_blocks t k rs"
  by (induction t k html rs rule: render_loop.induct) simp_all

lemma build_html_report_blocks:
  "build_html_report clk rs =
     html_head_1 @ strftime_now clk @ html_head_2 @ str_nat (length rs) @ html_head_3 @
     html_blocks (time_time clk) 0 rs @ html_tail"
  by (simp add: build_html_report_def render_loop_blocks Let_def)

lemma html_blocks_member:
  "(p, r) \<in> set rs \<Longrightarrow> \<exists>k' pre suf. html_blocks t k rs = pre @ html_block (t k') p r @ suf"
proof (induction rs arbitrary: k)
  case Nil
  then show ?case by simp
next
  case (Cons x rs)
  obtain q s where x: "x = (q, s)" by (cases x)
  show ?case
  proof (cases "(p, r) = x")
    case True
    with x have "html_blocks t k (x # rs) = [] @ html_block (t k) p r @ html_blocks t (Suc k) rs"
      by simp
    then show ?thesis by blast
  next
    case False
    with Cons.prems have "(p, r) \<in> set rs" by simp
    from Cons.IH[OF this, of "Suc k"] obtain k' pre suf
      where "html_blocks t (Suc k) rs = pre @ html_block (t k') p r @ suf" by blast
    with x have "html_blocks t k (x # rs) = (html_block (t k) q s @ pre) @ html_block (t k') p r @ suf"
      by simp
    then show ?thesis by blast
  qed
qed

lemma sublist_block_fields:
  "sublist (title p) (html_block now p r)"
  "sublist (subreddit p) (html_block now p r)"
  "sublist r (html_block now p r)"
  "sublist (permalink p) (html_block now p r)"
proof -
  have "html_block now p r = (html_block_1 @ subreddit p @ html_block_2 @ get_full_url p @ html_block_3) @
          title p @ (html_block_4 @ get_age_str now p @ html_block_5 @ r @ html_block_6)"
    by (simp add: html_block_def)
  then show "sublist (title p) (html_block now p r)" by (simp only: sublist_appendI)
  have "html_block now p r = html_block_1 @ subreddit p @ (html_block_2 @ get_full_url p @ html_block_3 @
          title p @ html_block_4 @ get_age_str now p @ html_block_5 @ r @ html_block_6)"
    by (simp add: html_block_def)
  then show "sublist (subreddit p) (html_block now p r)" by (simp only: sublist_appendI)
  have "html_block now p r = (html_block_1 @ subreddit p @ html_block_2 @ get_full_url p @ html_block_3 @
          title p @ html_block_4 @ get_age_str now p @ html_block_5) @ r @ html_block_6"
    by (simp add: html_block_def)
  then show "sublist r (html_block now p r)" by (simp only: sublist_appendI)
  have "html_block now p r = (html_block_1 @ subreddit p @ html_block_2 @ reddit_origin) @ permalink p @
          (html_block_3 @ title p @ html_block_4 @ get_age_str now p @ html_block_5 @ r @ html_block_6)"
    by (simp add: html_block_def get_full_url_def)
  then show "sublist (permalink p) (html_block now p r)" by (simp only: sublist_appendI)
qed

text \<open>
  Claim C10.  The renderer copies each post's title and subreddit name and each reason into
  the document as they are, with no escaping: each of them is a contiguous part of the
  document, whatever characters it contains.
\<close>

theorem fields_verbatim:
  "\<forall>(p, reason) \<in> set results.
     sublist (title p) (build_html_report clk results)
   \<and> sublist (subreddit p) (build_html_report clk results)
   \<and> sublist reason (build_html_report clk results)"
proof -
  have "sublist (title p) (build_html_report clk results)
   \<and> sublist (subreddit p) (build_html_report clk results)
   \<and> sublist reason (build_html_report clk results)" if "(p, reason) \<in> set results" for p reason
  proof -
    from html_blocks_member[OF that, of "time_time clk" 0] obtain k' pre suf
      where b: "html_blocks (time_time clk) 0 results = pre @ html_block (time_time clk k') p reason @ suf"
      by blast
    have doc: "build_html_report clk results =
        (html_head_1 @ strftime_now clk @ html_head_2 @ str_nat (length results) @ html_head_3 @ pre) @
        html_block (time_time clk k') p reason @ (suf @ html_tail)"
      by (simp add: build_html_report_blocks b)
    have blk: "sublist (html_block (time_time clk k') p reason) (build_html_report clk results)"
      unfolding doc by (rule sublist_appendI)
    show ?thesis
      using sublist_block_fields(1-3)[where p = p and now = "time_time clk k'" and r = reason] blk
        sublist_order.order_trans by blast
  qed
  then show ?thesis by blast
qed

text \<open>A title and a reason that contain markup occur in the document unchanged.\<close>

theorem fields_verbatim_witness:
  "(post_markup, ''Asks <i>for</i> tools'') \<in> set [(post_markup, ''Asks <i>for</i> tools'')]
   \<and> sublist ''<b>Free</b> CRM & more'' (build_html_report clock0 [(post_markup, ''Asks <i>for</i> tools'')])
   \<and> sublist ''Asks <i>for</i> tools'' (build_html_report clock0 [(post_markup, ''Asks <i>for</i> tools'')])"
  using fields_verbatim [of "[(post_markup, ''Asks <i>for</i> tools'')]" clock0]
  by (simp add: post_markup_def)

text \<open>The age examples of the specification: 30s, 90s, 7200s and 172800s after creation.\<close>

lemma get_age_str_examples:
  "get_age_str 1700000030 (post0\<lparr>created_utc := 1700000000\<rparr>) = ''30s''"
  "get_age_str 1700000090 (post0\<lparr>created_utc := 1700000000\<rparr>) = ''1m''"
  "get_age_str 1700007200 (post0\<lparr>created_utc := 1700000000\<rparr>) = ''2h''"
  "get_age_str 1700172800 (post0\<lparr>created_utc := 1700000000\<rparr>) = ''2d''"
  by code_simp+

lemma html_blocks_same_ages:
  "(\<And>j. j < length rs \<Longrightarrow>
      get_age_str (t1 (k + j)) (fst (rs ! j)) = get_age_str (t2 (k + j)) (fst (rs ! j))) \<Longrightarrow>
   html_blocks t1 k rs = html_blocks t2 k rs"
proof (induction rs arbitrary: k)
  case Nil
  show ?case by simp
next
  case (Cons x rs)
  obtain p r where x: "x = (p, r)" by (cases x)
  have "get_age_str (t1 k) p = get_age_str (t2 k) p"
    using Cons.prems[of 0] x by simp
  then have a: "html_block (t1 k) p r = html_block (t2 k) p r"
    by (simp add: html_block_def)
  have "html_blocks t1 (Suc k) rs = html_blocks t2 (Suc k) rs"
  proof (rule Cons.IH)
    fix j assume "j < length rs"
    then show "get_age_str (t1 (Suc k + j)) (fst (rs ! j)) = get_age_str (t2 (Suc k + j)) (fst (rs ! j))"
      using Cons.prems[of "Suc j"] by simp
  qed
  with a x show ?case by simp
qed

text \<open>
  Claim C7, as amended.  The document is a function of the results and of what the renderer
  reads from the clock: two renderings of the same results that read the same formatted
  time and give every post the same age string produce the same document.
\<close>

theorem report_same_clock_readings:
  assumes "strftime_now c1 = strftime_now c2"
    and "\<forall>k<length results. get_age_str (time_time c1 k) (fst (results ! k)) =
                             get_age_str (time_time c2 k) (fst (results ! k))"
  shows "build_html_report c1 results = build_html_report c2 results"
proof -
  have "html_blocks (time_time c1) 0 results = html_blocks (time_time c2) 0 results"
    using assms(2) by (intro html_blocks_same_ages) simp
  with assms(1) show ?thesis by (simp add: build_html_report_blocks)
qed

text \<open>Two clocks twenty seconds apart, within the same minute of age.\<close>

theorem report_same_clock_readings_witness:
  "strftime_now clock0 = strftime_now clock1
   \<and> time_time clock0 0 \<noteq> time_time clock1 0
   \<and> get_age_str (time_time clock0 0) post0 = get_age_str (time_time clock1 0) post0
   \<and> build_html_report clock0 [(post0, ''Fits.'')] = build_html_report clock1 [(post0, ''Fits.'')]"
proof -
  have a: "strftime_now clock0 = strftime_now clock1"
    by (simp add: clock0_def clock1_def)
  have n: "time_time clock0 0 \<noteq> time_time clock1 0"
    by (simp add: clock0_def clock1_def)
  have "get_age_str 1700000130 post0 = get_age_str 1700000150 post0"
    by code_simp
  then have g: "get_age_str (time_time clock0 0) post0 = get_age_str (time_time clock1 0) post0"
    by (simp add: clock0_def clock1_def)
  then have b: "\<forall>k<length [(post0, ''Fits.'')].
         get_age_str (time_time clock0 k) (fst ([(post0, ''Fits.'')] ! k)) =
         get_age_str (time_time clock1 k) (fst ([(post0, ''Fits.'')] ! k))"
    by simp
  from a n g report_same_clock_readings [OF a b] show ?thesis by blast
qed

text \<open>
  Claim C7 as stated fails: the same results rendered a minute later give another document,
  since the document shows the time of rendering and the age of each post.
\<close>

theorem report_pure_counterexample:
  "build_html_report clock0 [(post0, ''Fits.'')] \<noteq> build_html_report clock2 [(post0, ''Fits.'')]"
  by (simp add: build_html_report_blocks clock0_def clock2_def)

subsection \<open>Reading the report back\<close>

lemma expect_append [simp]: "expect lit (lit @ s) = Some s"
  by (simp add: expect_def)

lemma until_append: "c \<notin> set a \<Longrightarrow> until c (a @ c # b) = (a, c # b)"
  by (induction a) (auto simp: until_def)

lemma str_nat_digits: "set (str_nat n) \<subseteq> set ''0123456789''"
proof (induction n rule: str_nat.induct)
  case (1 n)
  have d: "digit_chr k \<in> set ''0123456789''" if "k < 10" for k
    unfolding digit_chr_def using that by (intro nth_mem) simp
  show ?case
  proof (cases "n < 10")
    case True
    then show ?thesis using d[of n] by (subst str_nat.simps) simp
  next
    case False
    then have "set (str_nat (n div 10)) \<subseteq> set ''0123456789''" by (rule "1.IH")
    moreover have "digit_chr (n mod 10) \<in> set ''0123456789''" by (rule d) simp
    ultimately show ?thesis using False by (subst str_nat.simps) simp
  qed
qed

lemma str_nat_no_paren: "CHR '')'' \<notin> set (str_nat n)"
  using str_nat_digits[of n] by auto

lemma str_nat_no_space: "CHR '' '' \<notin> set (str_nat n)"
  using str_nat_digits[of n] by auto

lemma str_int_no_paren: "CHR '')'' \<notin> set (str_int i)"
  by (simp add: str_int_def str_nat_no_paren)

lemma get_age_str_no_paren: "CHR '')'' \<notin> set (get_age_str now p)"
  by (simp add: get_age_str_def Let_def str_int_no_paren)

lemma expect_append2 [simp]: "expect (a @ b) (a @ b @ s) = Some s"
  using expect_append[of "a @ b" s] by simp

lemma until_literal:
  "c \<notin> set a \<Longrightarrow> lit \<noteq> [] \<Longrightarrow> hd lit = c \<Longrightarrow> until c (a @ lit @ b) = (a, lit @ b)"
  by (cases lit) (simp_all add: until_append)

lemma literal_heads:
  "html_block_2 \<noteq> []" "hd html_block_2 = CHR ''<''"
  "html_block_3 \<noteq> []" "hd html_block_3 = CHR 0x22"
  "tl html_block_4 \<noteq> []" "hd (tl html_block_4) = CHR ''<''"
  "html_block_5 \<noteq> []" "hd html_block_5 = CHR '')''"
  "html_block_6 \<noteq> []" "hd html_block_6 = CHR ''<''"
  "html_head_2 \<noteq> []" "hd html_head_2 = CHR ''<''"
  "html_head_3 \<noteq> []" "hd html_head_3 = CHR '' ''"
  by (simp_all add: html_block_2_def html_block_3_def html_block_4_def html_block_5_def
      html_block_6_def html_head_2_def html_head_3_def)

lemma parse_block_html_block:
  assumes "plain_result (p, r)"
  shows "parse_block (html_block now p r @ rest) = Some ((title p, permalink p), rest)"
proof -
  from assms have sub: "CHR ''<'' \<notin> set (subreddit p)" and link: "CHR 0x22 \<notin> set (permalink p)"
    and ttl: "CHR ''<'' \<notin> set (title p @ '' '')" and rsn: "CHR ''<'' \<notin> set r"
    by (simp_all add: plain_result_def)
  define s9 where "s9 = r @ html_block_6 @ rest"
  define s7 where "s7 = get_age_str now p @ html_block_5 @ s9"
  define s5 where "s5 = (title p @ '' '') @ tl html_block_4 @ s7"
  define s3 where "s3 = permalink p @ html_block_3 @ s5"
  define s1 where "s1 = subreddit p @ (html_block_2 @ reddit_origin) @ s3"
  have "html_block_4 @ s7 = '' '' @ tl html_block_4 @ s7"
    by (simp add: html_block_4_def)
  then have s5: "s5 = title p @ html_block_4 @ s7"
    by (simp add: s5_def)
  have doc: "html_block now p r @ rest = html_block_1 @ s1"
    by (simp add: html_block_def get_full_url_def s1_def s3_def s5 s7_def s9_def)
  have e1: "expect html_block_1 (html_block_1 @ s1) = Some s1" by simp
  have u1: "until CHR ''<'' s1 = (subreddit p, (html_block_2 @ reddit_origin) @ s3)"
    unfolding s1_def by (rule until_literal[OF sub]) (simp_all add: literal_heads)
  have e2: "expect (html_block_2 @ reddit_origin) ((html_block_2 @ reddit_origin) @ s3) = Some s3"
    by (rule expect_append)
  have u2: "until CHR 0x22 s3 = (permalink p, html_block_3 @ s5)"
    unfolding s3_def by (rule until_literal[OF link]) (simp_all add: literal_heads)
  have e3: "expect html_block_3 (html_block_3 @ s5) = Some s5" by simp
  have u3: "until CHR ''<'' s5 = (title p @ '' '', tl html_block_4 @ s7)"
    unfolding s5_def by (rule until_literal[OF ttl]) (simp_all add: literal_heads)
  have e4: "expect (tl html_block_4) (tl html_block_4 @ s7) = Some s7" by simp
  have u4: "until CHR '')'' s7 = (get_age_str now p, html_block_5 @ s9)"
    unfolding s7_def by (rule until_literal[OF get_age_str_no_paren]) (simp_all add: literal_heads)
  have e5: "expect html_block_5 (html_block_5 @ s9) = Some s9" by simp
  have u5: "until CHR ''<'' s9 = (r, html_block_6 @ rest)"
    unfolding s9_def by (rule until_literal[OF rsn]) (simp_all add: literal_heads)
  have e6: "expect html_block_6 (html_block_6 @ rest) = Some rest" by simp
  show ?thesis
    unfolding doc parse_block_def
    by (simp only: e1 u1 e2 u2 e3 u3 e4 u4 e5 u5 e6 option.case prod.case Let_def) simp
qed

lemma parse_block_html_tail: "parse_block html_tail = None"
  by (simp add: parse_block_def expect_def html_block_1_def html_tail_def)

lemma html_block_nonempty: "html_block now p r \<noteq> []"
  by (simp add: html_block_def html_block_1_def)

lemma length_html_blocks: "length rs \<le> length (html_blocks t k rs)"
proof (induction rs arbitrary: k)
  case Nil
  show ?case by simp
next
  case (Cons x rs)
  obtain p r where x: "x = (p, r)" by (cases x)
  have "html_block (t k) p r \<noteq> []" by (rule html_block_nonempty)
  then have "Suc 0 \<le> length (html_block (t k) p r)"
    by (cases "html_block (t k) p r") simp_all
  moreover note Cons.IH[of "Suc k"]
  ultimately have "Suc (length rs) \<le> length (html_block (t k) p r) + length (html_blocks t (Suc k) rs)"
    by linarith
  with x show ?case by simp
qed

lemma parse_blocks_html_blocks:
  "\<forall>x \<in> set rs. plain_result x \<Longrightarrow> length rs < fuel \<Longrightarrow>
   parse_blocks fuel (html_blocks t k rs @ html_tail) = Some (titles_and_permalinks rs)"
proof (induction rs arbitrary: fuel k)
  case Nil
  then obtain n where "fuel = Suc n" by (cases fuel) auto
  then show ?case by (simp add: parse_block_html_tail titles_and_permalinks_def)
next
  case (Cons x rs)
  obtain p r where x: "x = (p, r)" by (cases x)
  from Cons.prems obtain n where fuel: "fuel = Suc n" and n: "length rs < n"
    by (cases fuel) auto
  have pl: "plain_result (p, r)" using Cons.prems(1) x by simp
  have "parse_blocks n (html_blocks t (Suc k) rs @ html_tail) = Some (titles_and_permalinks rs)"
    using Cons.prems(1) n by (intro Cons.IH) simp_all
  then show ?case
    using parse_block_html_block[OF pl, of "t k" "html_blocks t (Suc k) rs @ html_tail"]
    by (simp add: fuel x titles_and_permalinks_def)
qed

text \<open>
  Claim C8, as amended.  For results whose subreddit names, titles and reasons contain no
  \<open><\<close> and whose permalinks contain no double quote, and a formatted time without \<open><\<close>,
  reading the rendered document back gives exactly the titles and permalinks of the input,
  in input order.
\<close>

theorem report_round_trip:
  assumes "\<forall>x \<in> set results. plain_result x" and "CHR ''<'' \<notin> set (strftime_now clk)"
  shows "parse_report (build_html_report clk results) = Some (titles_and_permalinks results)"
proof -
  define s5 where "s5 = html_blocks (time_time clk) 0 results @ html_tail"
  define s3 where "s3 = str_nat (length results) @ html_head_3 @ s5"
  define s1 where "s1 = strftime_now clk @ html_head_2 @ s3"
  have doc: "build_html_report clk results = html_head_1 @ s1"
    by (simp add: build_html_report_blocks s1_def s3_def s5_def)
  have e1: "expect html_head_1 (html_head_1 @ s1) = Some s1" by simp
  have u1: "until CHR ''<'' s1 = (strftime_now clk, html_head_2 @ s3)"
    unfolding s1_def by (rule until_literal[OF assms(2)]) (simp_all add: literal_heads)
  have e2: "expect html_head_2 (html_head_2 @ s3) = Some s3" by simp
  have u2: "until CHR '' '' s3 = (str_nat (length results), html_head_3 @ s5)"
    unfolding s3_def by (rule until_literal[OF str_nat_no_space]) (simp_all add: literal_heads)
  have e3: "expect html_head_3 (html_head_3 @ s5) = Some s5" by simp
  have "length results < length s5"
    using length_html_blocks[of results "time_time clk" 0]
    by (simp add: s5_def html_tail_def)
  then have p: "parse_blocks (length s5) s5 = Some (titles_and_permalinks results)"
    unfolding s5_def[symmetric] using assms(1)
    by (simp add: s5_def parse_blocks_html_blocks)
  show ?thesis
    unfolding doc parse_report_def
    by (simp only: e1 u1 e2 u2 e3 p option.case prod.case Let_def)
qed

text \<open>Two plain results and their round trip.\<close>

theorem report_round_trip_witness:
  "plain_result (post0, ''Fits.'') \<and> plain_result (post1, ''Asks for a tool.'')
   \<and> CHR ''<'' \<notin> set (strftime_now clock0)
   \<and> parse_report (build_html_report clock0 [(post0, ''Fits.''), (post1, ''Asks for a tool.'')]) =
       Some [(''Any tool for lease tracking?'', ''/r/PropTech/comments/abc/x/''),
             (''We launched our CRM'', ''/r/PropTech/comments/abd/y/'')]"
proof -
  have p0: "plain_result (post0, ''Fits.'')"
    by (simp add: plain_result_def post0_def)
  have p1: "plain_result (post1, ''Asks for a tool.'')"
    by (simp add: plain_result_def post1_def)
  from p0 p1 have a: "\<forall>x \<in> set [(post0, ''Fits.''), (post1, ''Asks for a tool.'')]. plain_result x"
    by simp
  have b: "CHR ''<'' \<notin> set (strftime_now clock0)"
    by (simp add: clock0_def)
  have c: "titles_and_permalinks [(post0, ''Fits.''), (post1, ''Asks for a tool.'')] =
       [(''Any tool for lease tracking?'', ''/r/PropTech/comments/abc/x/''),
             (''We launched our CRM'', ''/r/PropTech/comments/abd/y/'')]"
    by (simp add: titles_and_permalinks_def post0_def post1_def)
  from p0 p1 b c report_round_trip [OF a b] show ?thesis by simp
qed

text \<open>
  Claim C8 as stated fails: the renderer escapes nothing, so two inputs with different
  titles and permalinks can render to the same document, and then no parser recovers both.
\<close>

theorem report_round_trip_counterexample:
  "build_html_report clock0 [(post_a, ''Fits.'')] = build_html_report clock0 [(post_b, ''Fits.'')]
   \<and> titles_and_permalinks [(post_a, ''Fits.'')] \<noteq> titles_and_permalinks [(post_b, ''Fits.'')]"
proof -
  have "get_age_str now post_a = get_age_str now post_b" for now
    by (simp add: get_age_str_def post_a_def post_b_def)
  then have "html_block now post_a r = html_block now post_b r" for now r
    by (simp add: html_block_def get_full_url_def post_a_def post_b_def)
  then have "build_html_report clock0 [(post_a, ''Fits.'')] = build_html_report clock0 [(post_b, ''Fits.'')]"
    by (simp add: build_html_report_blocks)
  moreover have "titles_and_permalinks [(post_a, ''Fits.'')] \<noteq> titles_and_permalinks [(post_b, ''Fits.'')]"
    by (simp add: titles_and_permalinks_def post_a_def post_b_def)
  ultimately show ?thesis by blast
qed

subsection \<open>Delivery\<close>

lemmas int_eval = py_int_def int_space_def is_digit_def digit_val_def max_str_digits_def

text \<open>
  Claim C5, as amended.  When the port setting is unset or an integer literal, and the
  username, the password or the recipient is unset or empty, or the sender address is set
  to the empty string, \<open>send_email\<close> returns \<open>False\<close> and attempts no operation on the network.
\<close>

theorem incomplete_mail_config_fails:
  assumes "py_int (getenv_default env ''SMTP_PORT'' ''587'') = Some port"
    and "\<not> truthy (getenv env ''SMTP_USERNAME'') \<or> \<not> truthy (getenv env ''SMTP_PASSWORD'')
         \<or> getenv env ''SENDER_EMAIL'' = Some [] \<or> \<not> truthy recipient"
  shows "send_email env succeeds recipient subject html_content = (Inr False, [])"
  using assms by (auto simp: send_email_def Let_def split: option.splits)

text \<open>A configuration without password.\<close>

theorem incomplete_mail_config_fails_witness:
  "py_int (getenv_default mail_env_no_password ''SMTP_PORT'' ''587'') = Some 465
   \<and> \<not> truthy (getenv mail_env_no_password ''SMTP_PASSWORD'')
   \<and> send_email mail_env_no_password (\<lambda>operation. True) (Some ''me@example.com'') ''Report''
        ''<html></html>'' = (Inr False, [])"
proof -
  have a: "py_int (getenv_default mail_env_no_password ''SMTP_PORT'' ''587'') = Some 465"
    by (simp add: mail_env_no_password_def getenv_default_def int_eval)
  have b: "\<not> truthy (getenv mail_env_no_password ''SMTP_PASSWORD'')"
    by (simp add: mail_env_no_password_def getenv_def)
  from b have c: "\<not> truthy (getenv mail_env_no_password ''SMTP_USERNAME'')
         \<or> \<not> truthy (getenv mail_env_no_password ''SMTP_PASSWORD'')
         \<or> getenv mail_env_no_password ''SENDER_EMAIL'' = Some []
         \<or> \<not> truthy (Some ''me@example.com'')"
    by blast
  from a b incomplete_mail_config_fails [OF a c] show ?thesis by blast
qed

text \<open>
  Claim C5 as stated fails for the host and the port: unset, they are replaced by
  \<open>smtp.gmail.com\<close> and \<open>587\<close>, and the session is opened.
\<close>

theorem unset_host_and_port_counterexample:
  "getenv mail_env ''SMTP_SERVER'' = None \<and> getenv mail_env ''SMTP_PORT'' = None
   \<and> send_email mail_env (\<lambda>operation. True) (Some ''me@example.com'') ''Report'' ''<html></html>'' =
  (Inr True, [Connect ''smtp.gmail.com'' 587, StartTLS, Login ''digest@example.com'' ''app-password'',
     SendMessage \<lparr>msg_subject = ''Report'', msg_from = ''digest@example.com'',
                 msg_to = ''me@example.com'', msg_html = ''<html></html>''\<rparr>, Quit])"
  by (simp add: send_email_def mail_env_def getenv_def getenv_default_def int_eval)

text \<open>With a port setting that \<open>int\<close> accepts, \<open>send_email\<close> returns a boolean.\<close>

lemma send_email_returns_bool:
  "py_int (getenv_default env ''SMTP_PORT'' ''587'') = Some port \<Longrightarrow>
   \<exists>b. fst (send_email env succeeds recipient subject html_content) = Inr b"
  by (auto simp: send_email_def Let_def split_beta simp del: run_session.simps)

text \<open>
  Claim C6 fails on the code.  With \<open>SMTP_PORT\<close> set to the empty string, \<open>int\<close> raises
  \<open>ValueError\<close> on line 357, outside the \<open>try\<close>: \<open>send_email\<close> returns no boolean.
\<close>

theorem send_email_bad_port_raises:
  "send_email mail_env_bad_port (\<lambda>operation. True) (Some ''me@example.com'') ''Report'' ''<html></html>'' =
  (Inl ValueError, [])"
  by (simp add: send_email_def mail_env_bad_port_def getenv_def getenv_default_def int_eval)

end
